theory Spec2Isabelle
  imports Main "HOL-Library.AList"
begin

section \<open>The parsed document\<close>

text \<open>
  The program works on documents parsed by BeautifulSoup. A parsed document is a tree
  of elements: a tag with its name, its attribute dictionary and its children, a piece
  of text (bs4's NavigableString), or a comment (bs4's Comment, a subclass of
  NavigableString). The document itself is the root tag. Attribute values are strings
  (the attributes this program reads, \<open>id\<close>, \<open>href\<close> and \<open>data-stat\<close>, are single-valued);
  the attribute dictionary is an association list read with \<open>map_of\<close>. A Python string
  is a \<open>string\<close>, a list of characters.
\<close>

datatype node =
    Tag string "(string \<times> string) list" "node list"
  | NavigableString string
  | Comment string

datatype error = IndexError | KeyError | AttributeError | NameError | ValueError | OSError

text \<open>\<open>tag.get(key)\<close>: the attribute's value, or None.\<close>

fun get_attr :: "node \<Rightarrow> string \<Rightarrow> string option" where
  "get_attr (Tag name attrs contents) key = map_of attrs key"
| "get_attr (NavigableString s) key = None"
| "get_attr (Comment s) key = None"

text \<open>\<open>tag.descendants\<close>: every element below a tag, in document order.\<close>

fun descendants :: "node \<Rightarrow> node list" where
  "descendants (Tag name attrs contents) = concat (map (\<lambda>c. c # descendants c) contents)"
| "descendants (NavigableString s) = []"
| "descendants (Comment s) = []"

fun is_tag_named :: "string \<Rightarrow> node \<Rightarrow> bool" where
  "is_tag_named name (Tag name' attrs contents) = (name' = name)"
| "is_tag_named name (NavigableString s) = False"
| "is_tag_named name (Comment s) = False"

text \<open>\<open>tag.find_all(name)\<close>: the descendant tags of that name, in document order.\<close>

definition find_all :: "string \<Rightarrow> node \<Rightarrow> node list" where
  "find_all name el = filter (is_tag_named name) (descendants el)"

text \<open>
  \<open>tag.get_text()\<close>: the texts below the tag, concatenated in document order.
  Comments are not part of the text.
\<close>

fun get_text :: "node \<Rightarrow> string" where
  "get_text (Tag name attrs contents) = concat (map get_text contents)"
| "get_text (NavigableString s) = s"
| "get_text (Comment s) = []"

section \<open>Python values and strings\<close>

datatype py_value = PyStr string | PyInt nat | PyBool bool | PyNone

text \<open>\<open>s.rstrip("*")\<close>: every trailing asterisk is removed.\<close>

definition rstrip_star :: "string \<Rightarrow> string" where
  "rstrip_star s = rev (dropWhile (\<lambda>c. c = CHR ''*'') (rev s))"

text \<open>
  \<open>s.strip()\<close> removes leading and trailing whitespace. The ASCII whitespace
  characters of Python are the codes 9 to 13, 28 to 31 and 32.
\<close>

definition is_space :: "char \<Rightarrow> bool" where
  "is_space c = (let n = of_char c :: nat in (9 \<le> n \<and> n \<le> 13) \<or> (28 \<le> n \<and> n \<le> 32))"

definition strip :: "string \<Rightarrow> string" where
  "strip s = rev (dropWhile is_space (rev (dropWhile is_space s)))"

text \<open>\<open>s.split(sep)\<close> for a one-character separator: never an empty list.\<close>

fun split :: "char \<Rightarrow> string \<Rightarrow> string list" where
  "split sep [] = [[]]"
| "split sep (c # cs) =
     (if c = sep then [] # split sep cs
      else (case split sep cs of
              [] \<Rightarrow> [[c]]
            | p # ps \<Rightarrow> (c # p) # ps))"

text \<open>\<open>s.lower()\<close> on ASCII letters.\<close>

definition lower_char :: "char \<Rightarrow> char" where
  "lower_char c =
     (let n = of_char c :: nat in if 65 \<le> n \<and> n \<le> 90 then char_of (n + 32) else c)"

definition lower :: "string \<Rightarrow> string" where
  "lower s = map lower_char s"

section \<open>get_all_players\<close>

text \<open>
  The outside world of \<open>get_all_players\<close>: \<open>http_get url\<close> is the body of the response
  to \<open>requests.get(url, timeout=60)\<close> followed by \<open>raise_for_status()\<close>, or None when either
  raises a RequestException (connection error, timeout, error status);
  \<open>html_parser\<close> is \<open>BeautifulSoup(content, "html.parser")\<close>; \<open>csv_writable\<close> tells whether
  \<open>df.to_csv("data/all_players.csv")\<close> succeeds (it raises OSError otherwise). The delay
  before a request and the printed lines do not change what is returned and are left
  out.
\<close>

record world =
  http_get :: "string \<Rightarrow> string option"
  html_parser :: "string \<Rightarrow> node"
  csv_writable :: bool

text \<open>
  What \<open>get_all_players\<close> can return: a pandas DataFrame (its column names and its
  rows), or the pair of lists of the statement \<open>return [], []\<close>.
\<close>

datatype returned =
    DataFrame "string list" "py_value list list"
  | TupleOfLists "py_value list" "py_value list"

definition ascii_lowercase :: string where
  "ascii_lowercase = ''abcdefghijklmnopqrstuvwxyz''"

definition url_of :: "char \<Rightarrow> string" where
  "url_of letter = ''https://www.basketball-reference.com/players/'' @ [letter] @ ''/''"

text \<open>
  The body of the loop over the rows of one page (lines 48 to 56): the list appended
  to \<open>raw_data\<close>, or the exception raised. \<open>row.find_all("th")[0]\<close> raises IndexError in a
  row without a header cell, \<open>th.find_all("a")[0]["href"]\<close> raises KeyError when the one
  anchor has no \<open>href\<close>, and \<open>name[-1]\<close> raises IndexError on the empty string.
\<close>

definition scrape_row :: "node \<Rightarrow> error + py_value list" where
  "scrape_row row =
     (case find_all ''th'' row of
        [] \<Rightarrow> Inl IndexError
      | th # _ \<Rightarrow>
          let name = get_text th;
              stats = map get_text (find_all ''td'' row)
          in (case (if length (find_all ''a'' th) = 1
                    then (case get_attr (hd (find_all ''a'' th)) ''href'' of
                            None \<Rightarrow> Inl KeyError
                          | Some href \<Rightarrow> Inr href)
                    else Inr [])
              of Inl e \<Rightarrow> Inl e
               | Inr link \<Rightarrow>
                   let is_active = length (find_all ''strong'' th)
                   in if name = [] then Inl IndexError
                      else let is_hof = (last name = CHR ''*'')
                           in Inr ([PyStr (rstrip_star name)] @ map PyStr stats
                                   @ [PyStr link, PyInt is_active, PyBool is_hof])))"

text \<open>The loop over the rows of one page: it stops at the first exception.\<close>

fun scrape_rows :: "node list \<Rightarrow> py_value list list \<Rightarrow> error + py_value list list" where
  "scrape_rows [] raw_data = Inr raw_data"
| "scrape_rows (row # tr) raw_data =
     (case scrape_row row of
        Inl e \<Rightarrow> Inl e
      | Inr r \<Rightarrow> scrape_rows tr (raw_data @ [r]))"

text \<open>
  How the loop over the letters ends: with an exception, with one of the two
  \<open>return\<close> statements inside it, or by running out of letters with the last page's
  headers and the rows collected.
\<close>

datatype loop_end =
    Raised error
  | Returned returned
  | Finished "string list" "py_value list list"

fun letters_loop :: "world \<Rightarrow> string \<Rightarrow> string list \<Rightarrow> py_value list list \<Rightarrow> loop_end" where
  "letters_loop w [] headers df_list = Finished headers df_list"
| "letters_loop w (letter # alphabet) headers df_list =
     (case http_get w (url_of letter) of
        None \<Rightarrow> Returned (TupleOfLists [] [])
      | Some content \<Rightarrow>
          (case find_all ''tr'' (html_parser w content) of
             [] \<Rightarrow> Returned (DataFrame [] [])
           | tr0 # tr \<Rightarrow>
               let headers' = split CHR 0x0A (strip (get_text tr0))
               in (case scrape_rows tr [] of
                     Inl e \<Rightarrow> Raised e
                   | Inr raw_data \<Rightarrow> letters_loop w alphabet headers' (df_list @ raw_data))))"

text \<open>
  \<open>pd.DataFrame(rows, columns=columns)\<close> for a list of lists: short rows are filled
  with missing values up to the longest row, and pandas raises ValueError when that
  width is not the number of column names. An empty list of rows gives an empty frame
  with the columns.
\<close>

definition pd_DataFrame :: "py_value list list \<Rightarrow> string list \<Rightarrow> error + returned" where
  "pd_DataFrame rows columns =
     (if rows = [] then Inr (DataFrame columns [])
      else let width = fold max (map length rows) 0
           in if width = length columns
              then Inr (DataFrame columns (map (\<lambda>r. r @ replicate (width - length r) PyNone) rows))
              else Inl ValueError)"

definition get_all_players :: "world \<Rightarrow> bool \<Rightarrow> error + returned" where
  "get_all_players w save_results =
     (case letters_loop w ascii_lowercase [] [] of
        Raised e \<Rightarrow> Inl e
      | Returned r \<Rightarrow> Inr r
      | Finished headers df_list \<Rightarrow>
          (case pd_DataFrame df_list (map lower headers @ [''url'', ''is_active'', ''is_hof'']) of
             Inl e \<Rightarrow> Inl e
           | Inr df \<Rightarrow>
               if save_results \<and> \<not> csv_writable w then Inl OSError else Inr df))"

section \<open>get_table\<close>

text \<open>
  One attribute filter of \<open>find(name, {key: sought})\<close>, as bs4 evaluates it: a tag
  that carries the attribute matches when its value is the sought string; a tag that
  lacks it matches only a sought value that is None or the empty string.
\<close>

definition attr_matches :: "string option \<Rightarrow> string option \<Rightarrow> bool" where
  "attr_matches actual sought =
     (case actual of
        None \<Rightarrow> (case sought of None \<Rightarrow> True | Some s \<Rightarrow> s = [])
      | Some a \<Rightarrow> (case sought of None \<Rightarrow> False | Some s \<Rightarrow> a = s))"

text \<open>\<open>el.find(name, {key: sought})\<close>: the first matching descendant, or None.\<close>

definition find_attrs :: "string \<Rightarrow> string \<Rightarrow> string option \<Rightarrow> node \<Rightarrow> node option" where
  "find_attrs name key sought el =
     List.find (\<lambda>n. is_tag_named name n \<and> attr_matches (get_attr n key) sought) (descendants el)"

text \<open>\<open>el.find(name)\<close>, which is also what \<open>table_div.thead\<close> and \<open>table_div.tbody\<close> are.\<close>

definition find_name :: "string \<Rightarrow> node \<Rightarrow> node option" where
  "find_name name el = List.find (is_tag_named name) (descendants el)"

text \<open>
  The filter \<open>lambda text: isinstance(text, Comment)\<close> of line 91. The module imports
  only \<open>BeautifulSoup\<close> from bs4 and binds the name \<open>Comment\<close> nowhere, so evaluating the
  body raises NameError, whatever the text.
\<close>

definition comment_lambda :: "node \<Rightarrow> error + bool" where
  "comment_lambda text = Inl NameError"

fun string_of :: "node \<Rightarrow> string option" where
  "string_of (Tag name attrs contents) = None"
| "string_of (NavigableString s) = Some s"
| "string_of (Comment s) = Some s"

text \<open>
  \<open>soup.find_all(string=f)\<close>: bs4 walks the descendants in document order and calls \<open>f\<close>
  on every text and comment that is not empty; tags are not tested. An exception of
  \<open>f\<close> ends the search. The result is the list of the strings selected (a text or
  comment found is a Python string).
\<close>

fun select_strings :: "(node \<Rightarrow> error + bool) \<Rightarrow> node list \<Rightarrow> error + string list" where
  "select_strings f [] = Inr []"
| "select_strings f (n # ns) =
     (case string_of n of
        None \<Rightarrow> select_strings f ns
      | Some s \<Rightarrow>
          if s = [] then select_strings f ns
          else (case f n of
                  Inl e \<Rightarrow> Inl e
                | Inr keep \<Rightarrow>
                    (case select_strings f ns of
                       Inl e \<Rightarrow> Inl e
                     | Inr found \<Rightarrow> Inr (if keep then s # found else found))))"

definition find_all_string :: "(node \<Rightarrow> error + bool) \<Rightarrow> node \<Rightarrow> error + string list" where
  "find_all_string f el = select_strings f (descendants el)"

text \<open>\<open>sub in s\<close> on strings.\<close>

fun startswith :: "string \<Rightarrow> string \<Rightarrow> bool" where
  "startswith s [] = True"
| "startswith [] (p # ps) = False"
| "startswith (c # cs) (p # ps) = (c = p \<and> startswith cs ps)"

fun contains :: "string \<Rightarrow> string \<Rightarrow> bool" where
  "contains [] sub = (sub = [])"
| "contains (c # cs) sub = (startswith (c # cs) sub \<or> contains cs sub)"

text \<open>
  The loop over the comments (lines 91 to 96): a comment that contains \<open>div_id\<close> is
  parsed and searched; the loop stops at the first one in which the div is found.
\<close>

fun search_comments :: "(string \<Rightarrow> node) \<Rightarrow> string \<Rightarrow> string list \<Rightarrow> node option" where
  "search_comments parser div_id [] = None"
| "search_comments parser div_id (comment # comments) =
     (if contains comment div_id
      then (case find_attrs ''div'' ''id'' (Some div_id) (parser comment) of
              Some table_div \<Rightarrow> Some table_div
            | None \<Rightarrow> search_comments parser div_id comments)
      else search_comments parser div_id comments)"

text \<open>Lines 87 to 96: the div, looked up directly and then in the comments.\<close>

definition locate_div :: "(string \<Rightarrow> node) \<Rightarrow> node \<Rightarrow> string \<Rightarrow> error + node option" where
  "locate_div parser soup div_id =
     (case find_attrs ''div'' ''id'' (Some div_id) soup of
        Some table_div \<Rightarrow> Inr (Some table_div)
      | None \<Rightarrow>
          (case find_all_string comment_lambda soup of
             Inl e \<Rightarrow> Inl e
           | Inr comments \<Rightarrow> Inr (search_comments parser div_id comments)))"

text \<open>
  \<open>stats_table\<close> is a Python dictionary from column key to the list of the column's
  values. A dictionary keeps its keys in insertion order and assigning to a key that
  is present keeps the key's place: this is \<open>AList.update\<close> on an association list.
\<close>

type_synonym stat_table = "(string \<times> string list) list"

text \<open>
  \<open>row.find(cell, {"data-stat": th.get("data-stat")}).get_text()\<close>: the text of the
  row's cell for the header \<open>th\<close>; None stands for the AttributeError that \<open>get_text\<close>
  raises on the None of a failed \<open>find\<close>.
\<close>

definition cell_text :: "string \<Rightarrow> node \<Rightarrow> node \<Rightarrow> string option" where
  "cell_text cell th row =
     map_option get_text (find_attrs cell ''data-stat'' (get_attr th ''data-stat'') row)"

text \<open>
  The loop over the rows for one header (lines 108 to 111 with \<open>cell = "th"\<close>, lines 116
  to 119 with \<open>cell = "td"\<close>): each row's value is appended to the list stored under the
  header's text.
\<close>

fun fill_column :: "string \<Rightarrow> node \<Rightarrow> node list \<Rightarrow> stat_table \<Rightarrow> error + stat_table" where
  "fill_column cell th [] stats_table = Inr stats_table"
| "fill_column cell th (row # rows) stats_table =
     (case map_of stats_table (get_text th) of
        None \<Rightarrow> Inl KeyError
      | Some column \<Rightarrow>
          (case cell_text cell th row of
             None \<Rightarrow> Inl AttributeError
           | Some v \<Rightarrow>
               fill_column cell th rows
                 (AList.update (get_text th) (column @ [v]) stats_table)))"

text \<open>The loop over the headers after the first (lines 114 to 119).\<close>

fun fill_columns :: "node list \<Rightarrow> node list \<Rightarrow> stat_table \<Rightarrow> error + stat_table" where
  "fill_columns [] rows stats_table = Inr stats_table"
| "fill_columns (th # ths) rows stats_table =
     (case fill_column ''td'' th rows (AList.update (get_text th) [] stats_table) of
        Inl e \<Rightarrow> Inl e
      | Inr stats_table' \<Rightarrow> fill_columns ths rows stats_table')"

text \<open>
  \<open>pd.DataFrame(stats_table)\<close> for a dictionary of lists: the frame has the
  dictionary's keys as columns, in order; pandas raises ValueError when the lists
  differ in length. The frame is represented by the dictionary.
\<close>

definition pd_DataFrame_dict :: "stat_table \<Rightarrow> error + stat_table" where
  "pd_DataFrame_dict d =
     (if list_all (\<lambda>kv. length (snd kv) = length (snd (hd d))) d then Inr d
      else Inl ValueError)"

text \<open>
  \<open>get_table(soup, div_id)\<close>; \<open>parser\<close> is \<open>BeautifulSoup(comment, "html.parser")\<close>. The
  result is an exception, None, or the frame. A tag is true in Python whatever its
  contents, so \<open>not table_div\<close> and its two siblings test for None.
\<close>

definition get_table :: "(string \<Rightarrow> node) \<Rightarrow> node \<Rightarrow> string \<Rightarrow> error + stat_table option" where
  "get_table parser soup div_id =
     (case locate_div parser soup div_id of
        Inl e \<Rightarrow> Inl e
      | Inr None \<Rightarrow> Inr None
      | Inr (Some table_div) \<Rightarrow>
          (case find_name ''thead'' table_div of
             None \<Rightarrow> Inr None
           | Some thead \<Rightarrow>
               (case find_name ''tbody'' table_div of
                  None \<Rightarrow> Inr None
                | Some tbody \<Rightarrow>
                    let headers = find_all ''th'' thead;
                        rows = find_all ''tr'' tbody
                    in (case headers of
                          [] \<Rightarrow> Inl IndexError
                        | h0 # hs \<Rightarrow>
                            (case fill_column ''th'' h0 rows [(get_text h0, [])] of
                               Inl e \<Rightarrow> Inl e
                             | Inr stats_table \<Rightarrow>
                                 (case fill_columns hs rows stats_table of
                                    Inl e \<Rightarrow> Inl e
                                  | Inr stats_table' \<Rightarrow>
                                      map_sum id Some (pd_DataFrame_dict stats_table')))))))"

section \<open>Example documents\<close>

text \<open>
  A page whose table is present directly: three header cells and two body rows, the
  cells of each body row in the reverse of the header's order.
\<close>

definition reversed_rows :: "node list" where
  "reversed_rows =
     [Tag ''tr'' []
        [Tag ''td'' [(''data-stat'', ''pts'')] [NavigableString ''10''],
         Tag ''td'' [(''data-stat'', ''g'')] [NavigableString ''5''],
         Tag ''th'' [(''data-stat'', ''season'')] [NavigableString ''2020'']],
      Tag ''tr'' []
        [Tag ''td'' [(''data-stat'', ''pts'')] [NavigableString ''20''],
         Tag ''td'' [(''data-stat'', ''g'')] [NavigableString ''7''],
         Tag ''th'' [(''data-stat'', ''season'')] [NavigableString ''2021'']]]"

definition season_headers :: "node list" where
  "season_headers =
     [Tag ''th'' [(''data-stat'', ''season'')] [NavigableString ''Season''],
      Tag ''th'' [(''data-stat'', ''g'')] [NavigableString ''G''],
      Tag ''th'' [(''data-stat'', ''pts'')] [NavigableString ''PTS'']]"

definition season_thead :: node where
  "season_thead = Tag ''thead'' [] [Tag ''tr'' [] season_headers]"

definition season_tbody :: node where
  "season_tbody = Tag ''tbody'' [] reversed_rows"

definition season_div :: node where
  "season_div = Tag ''div'' [(''id'', ''t'')] [Tag ''table'' [] [season_thead, season_tbody]]"

definition season_page :: node where
  "season_page = Tag ''[document]'' [] [Tag ''p'' [] [NavigableString ''Stats''], season_div]"

definition season_table :: stat_table where
  "season_table =
     [(''Season'', [''2020'', ''2021'']), (''G'', [''5'', ''7'']), (''PTS'', [''10'', ''20''])]"

text \<open>The same page with a second body row that has no cell for the key \<open>pts\<close>.\<close>

definition gap_rows :: "node list" where
  "gap_rows =
     [Tag ''tr'' []
        [Tag ''td'' [(''data-stat'', ''pts'')] [NavigableString ''10''],
         Tag ''td'' [(''data-stat'', ''g'')] [NavigableString ''5''],
         Tag ''th'' [(''data-stat'', ''season'')] [NavigableString ''2020'']],
      Tag ''tr'' []
        [Tag ''td'' [(''data-stat'', ''g'')] [NavigableString ''7''],
         Tag ''th'' [(''data-stat'', ''season'')] [NavigableString ''2021'']]]"

definition gap_tbody :: node where
  "gap_tbody = Tag ''tbody'' [] gap_rows"

definition gap_div :: node where
  "gap_div = Tag ''div'' [(''id'', ''t'')] [Tag ''table'' [] [season_thead, gap_tbody]]"

definition gap_page :: node where
  "gap_page = Tag ''[document]'' [] [gap_div]"

text \<open>The same page with two header cells of the same text \<open>G\<close>.\<close>

definition twin_headers :: "node list" where
  "twin_headers =
     [Tag ''th'' [(''data-stat'', ''season'')] [NavigableString ''Season''],
      Tag ''th'' [(''data-stat'', ''g'')] [NavigableString ''G''],
      Tag ''th'' [(''data-stat'', ''pts'')] [NavigableString ''G'']]"

definition twin_thead :: node where
  "twin_thead = Tag ''thead'' [] [Tag ''tr'' [] twin_headers]"

definition twin_div :: node where
  "twin_div = Tag ''div'' [(''id'', ''t'')] [Tag ''table'' [] [twin_thead, season_tbody]]"

definition twin_page :: node where
  "twin_page = Tag ''[document]'' [] [twin_div]"

definition twin_table :: stat_table where
  "twin_table = [(''Season'', [''2020'', ''2021'']), (''G'', [''10'', ''20''])]"

text \<open>
  A page on which the table stands only inside a comment, and a parser that reads
  that comment's markup as the tree it describes (and any other markup as an empty
  document).
\<close>

definition hidden_markup :: string where
  "hidden_markup = ''<div id=t><table><thead><tr><th data-stat=g>G</th></tr></thead><tbody><tr><th data-stat=g>5</th></tr></tbody></table></div>''"

definition hidden_tree :: node where
  "hidden_tree =
     Tag ''[document]'' []
       [Tag ''div'' [(''id'', ''t'')]
          [Tag ''table'' []
             [Tag ''thead'' [] [Tag ''tr'' [] [Tag ''th'' [(''data-stat'', ''g'')] [NavigableString ''G'']]],
              Tag ''tbody'' [] [Tag ''tr'' [] [Tag ''th'' [(''data-stat'', ''g'')] [NavigableString ''5'']]]]]]"

definition hidden_parser :: "string \<Rightarrow> node" where
  "hidden_parser markup = (if markup = hidden_markup then hidden_tree else Tag ''[document]'' [] [])"

definition hidden_page :: node where
  "hidden_page = Tag ''[document]'' [] [Tag ''p'' [] [NavigableString ''Stats''], Comment hidden_markup]"

text \<open>A page without any table: one paragraph of text.\<close>

definition plain_page :: node where
  "plain_page = Tag ''[document]'' [] [Tag ''p'' [] [NavigableString ''hello'']]"

text \<open>
  Roster rows and their name cells: a name with two trailing asterisks, a plain name,
  a name with one trailing asterisk, a name in two bold markers, a name with two
  links, a name in one anchor that has no \<open>href\<close>, and a name cell without text.
\<close>

definition hof_cell :: node where
  "hof_cell =
     Tag ''th'' [] [Tag ''a'' [(''href'', ''/p/a.html'')] [NavigableString ''Al A''], NavigableString ''**'']"

definition hof_row :: node where
  "hof_row = Tag ''tr'' [] [hof_cell, Tag ''td'' [] [NavigableString ''1990'']]"

definition plain_cell :: node where
  "plain_cell = Tag ''th'' [] [Tag ''a'' [(''href'', ''/p/b.html'')] [NavigableString ''Bo B'']]"

definition plain_row :: node where
  "plain_row = Tag ''tr'' [] [plain_cell, Tag ''td'' [] [NavigableString ''1991'']]"

definition star_cell :: node where
  "star_cell =
     Tag ''th'' [] [Tag ''a'' [(''href'', ''/p/e.html'')] [NavigableString ''Ed E''], NavigableString ''*'']"

definition star_row :: node where
  "star_row = Tag ''tr'' [] [star_cell, Tag ''td'' [] [NavigableString ''1980'']]"

definition bold_cell :: node where
  "bold_cell =
     Tag ''th'' []
       [Tag ''strong'' [] [Tag ''a'' [(''href'', ''/p/c.html'')] [NavigableString ''Cy'']],
        Tag ''strong'' [] [NavigableString '' C'']]"

definition bold_row :: node where
  "bold_row = Tag ''tr'' [] [bold_cell, Tag ''td'' [] [NavigableString ''2020'']]"





definition nameless_cell :: node where
  "nameless_cell = Tag ''th'' [] []"

definition nameless_row :: node where
  "nameless_row = Tag ''tr'' [] [nameless_cell, Tag ''td'' [] [NavigableString ''1990'']]"

text \<open>
  A roster page: a header row, then the rows given. In the world \<open>letter_world\<close> the
  response to a request is its URL and the parser hands out the page of that URL: the
  page of the letter b has a row whose name cell has no text, every other page has
  one plain row.
\<close>

definition header_row :: node where
  "header_row =
     Tag ''tr'' []
       [Tag ''th'' [] [NavigableString ''Player''], NavigableString [CHR 0x0A],
        Tag ''th'' [] [NavigableString ''From'']]"

definition roster_page :: "node list \<Rightarrow> node" where
  "roster_page rows = Tag ''[document]'' [] [Tag ''table'' [] (header_row # rows)]"

definition letter_world :: world where
  "letter_world =
     \<lparr>http_get = (\<lambda>url. Some url),
      html_parser = (\<lambda>content. if content = url_of CHR ''b''
                               then roster_page [plain_row, nameless_row]
                               else roster_page [plain_row]),
      csv_writable = True\<rparr>"

text \<open>
  The world \<open>b_down\<close>: every page has one plain row, and the request for the letter b
  fails.
\<close>

definition b_down :: world where
  "b_down =
     \<lparr>http_get = (\<lambda>url. if url = url_of CHR ''b'' then None else Some url),
      html_parser = (\<lambda>content. roster_page [plain_row]),
      csv_writable = True\<rparr>"

section \<open>Lemmas on the roster rows\<close>

lemma rstrip_star_decompose:
  "s = rstrip_star s @ replicate (length (takeWhile (\<lambda>c. c = CHR ''*'') (rev s))) CHR ''*''"
proof -
  let ?P = "\<lambda>c. c = CHR ''*''"
  have stars: "takeWhile ?P xs = replicate (length (takeWhile ?P xs)) CHR ''*''" for xs
    by (induction xs) auto
  have "rev s = takeWhile ?P (rev s) @ dropWhile ?P (rev s)"
    by simp
  then have "s = rev (dropWhile ?P (rev s)) @ rev (takeWhile ?P (rev s))"
    by (metis rev_append rev_rev_ident)
  moreover have "rev (takeWhile ?P (rev s)) = replicate (length (takeWhile ?P (rev s))) CHR ''*''"
    using stars [of "rev s"] by (metis rev_replicate)
  ultimately show ?thesis
    by (simp add: rstrip_star_def)
qed

lemma rstrip_star_no_trailing:
  "rstrip_star s = [] \<or> last (rstrip_star s) \<noteq> CHR ''*''"
proof (cases "dropWhile (\<lambda>c. c = CHR ''*'') (rev s)")
  case Nil
  then show ?thesis by (simp add: rstrip_star_def)
next
  case (Cons y ys)
  then have "y \<noteq> CHR ''*''"
    using hd_dropWhile [of "\<lambda>c. c = CHR ''*''" "rev s"] by simp
  with Cons show ?thesis by (simp add: rstrip_star_def)
qed

lemma stars_iff_last:
  "s \<noteq> [] \<Longrightarrow> (0 < length (takeWhile (\<lambda>c. c = CHR ''*'') (rev s))) = (last s = CHR ''*'')"
  by (cases s rule: rev_cases) auto

lemma scrape_row_Inr:
  assumes "find_all ''th'' row = th # ths" and "scrape_row row = Inr record"
  shows "get_text th \<noteq> []"
    and "record = PyStr (rstrip_star (get_text th)) # map PyStr (map get_text (find_all ''td'' row))
           @ [PyStr (if length (find_all ''a'' th) = 1
                     then the (get_attr (hd (find_all ''a'' th)) ''href'') else []),
              PyInt (length (find_all ''strong'' th)),
              PyBool (last (get_text th) = CHR ''*'')]"
    and "length (find_all ''a'' th) = 1 \<Longrightarrow> get_attr (hd (find_all ''a'' th)) ''href'' \<noteq> None"
  using assms
  by (auto simp: scrape_row_def Let_def split: if_splits option.splits)

lemma scrape_row_errors:
  "scrape_row row = Inl e \<Longrightarrow> e = IndexError \<or> e = KeyError"
  by (auto simp: scrape_row_def Let_def split: list.splits if_splits option.splits)

lemma scrape_row_empty_name:
  assumes "find_all ''th'' row = th # ths" and "get_text th = []"
  shows "scrape_row row =
           (if length (find_all ''a'' th) = 1 \<and> get_attr (hd (find_all ''a'' th)) ''href'' = None
            then Inl KeyError else Inl IndexError)"
  using assms
  by (auto simp: scrape_row_def Let_def split: if_splits option.splits)

lemma scrape_rows_raises:
  "row \<in> set tr \<Longrightarrow> scrape_row row = Inl e \<Longrightarrow>
     scrape_rows tr raw_data = Inl IndexError \<or> scrape_rows tr raw_data = Inl KeyError"
proof (induction tr arbitrary: raw_data)
  case Nil
  then show ?case by simp
next
  case (Cons r tr)
  show ?case
  proof (cases "scrape_row r")
    case (Inl e')
    then show ?thesis using scrape_row_errors [OF Inl] by auto
  next
    case (Inr rec)
    with Cons.prems have "row \<in> set tr" by auto
    from Cons.IH [OF this Cons.prems(2)] Inr show ?thesis by simp
  qed
qed

lemma letters_loop_append:
  "letters_loop w (before @ rest) headers df_list =
     (case letters_loop w before headers df_list of
        Finished headers' df_list' \<Rightarrow> letters_loop w rest headers' df_list'
      | Raised e \<Rightarrow> Raised e
      | Returned r \<Rightarrow> Returned r)"
  by (induction before arbitrary: headers df_list)
     (auto simp: Let_def split: option.splits list.splits sum.splits)

text \<open>
  A failed request ends the run at once, whatever was collected before it.
\<close>

lemma get_all_players_request_failure:
  assumes "ascii_lowercase = before @ letter # after"
      and "letters_loop w before [] [] = Finished headers df_list"
      and "http_get w (url_of letter) = None"
  shows "get_all_players w save_results = Inr (TupleOfLists [] [])"
  by (simp add: get_all_players_def assms letters_loop_append)

section \<open>Lemmas on the stat table\<close>

lemma those_Some_iff: "those xs = Some ys \<longleftrightarrow> xs = map Some ys"
  by (induction xs arbitrary: ys) (auto split: option.splits)

lemma those_None_iff: "those xs = None \<longleftrightarrow> None \<in> set xs"
  by (induction xs) (auto split: option.splits)

lemma those_length: "those xs = Some ys \<Longrightarrow> length ys = length xs"
  by (auto simp: those_Some_iff)

lemma those_all_Some:
  "(\<And>x. x \<in> set xs \<Longrightarrow> f x \<noteq> None) \<Longrightarrow> \<exists>ys. those (map f xs) = Some ys"
proof (induction xs)
  case Nil
  then show ?case by simp
next
  case (Cons a xs)
  from Cons.prems [of a] obtain y where y: "f a = Some y"
    by auto
  from Cons.IH Cons.prems obtain ys where "those (map f xs) = Some ys"
    by auto
  with y show ?case by simp
qed

lemma fill_column_those:
  "map_of tbl (get_text th) = Some col \<Longrightarrow>
   fill_column cell th rows tbl =
     (case those (map (cell_text cell th) rows) of
        None \<Rightarrow> Inl AttributeError
      | Some vs \<Rightarrow> Inr (AList.update (get_text th) (col @ vs) tbl))"
proof (induction rows arbitrary: tbl col)
  case Nil
  then show ?case by (simp add: update_triv)
next
  case (Cons row rows)
  show ?case
  proof (cases "cell_text cell th row")
    case None
    with Cons.prems show ?thesis by simp
  next
    case (Some v)
    have "map_of (AList.update (get_text th) (col @ [v]) tbl) (get_text th) = Some (col @ [v])"
      by (simp add: update_conv')
    from Cons.IH [OF this] Cons.prems Some show ?thesis
      by (simp split: option.splits)
  qed
qed

lemma fill_columns_those:
  "fill_columns hs rows tbl =
     (case those (map (\<lambda>th. those (map (cell_text ''td'' th) rows)) hs) of
        None \<Rightarrow> Inl AttributeError
      | Some cols \<Rightarrow> Inr (fold (case_prod AList.update) (zip (map get_text hs) cols) tbl))"
proof (induction hs arbitrary: tbl)
  case Nil
  then show ?case by simp
next
  case (Cons th hs)
  have "map_of (AList.update (get_text th) [] tbl) (get_text th) = Some []"
    by (simp add: update_conv')
  from fill_column_those [OF this, of "''td''" rows] Cons.IH show ?case
    by (simp split: option.splits)
qed

lemma pd_DataFrame_dict_same_length:
  "list_all (\<lambda>kv. length (snd kv) = n) d \<Longrightarrow> pd_DataFrame_dict d = Inr d"
  by (cases d) (auto simp: pd_DataFrame_dict_def list_all_iff)

lemma fold_update_snoc:
  "fold (case_prod AList.update) (kvs @ [(k, v)]) al
     = AList.update k v (fold (case_prod AList.update) kvs al)"
  by simp

lemma fold_update_subset:
  "set (fold (case_prod AList.update) kvs al) \<subseteq> set al \<union> set kvs"
proof (induction kvs rule: rev_induct)
  case Nil
  then show ?case by simp
next
  case (snoc kv kvs)
  have "set (AList.update k v xs) \<subseteq> insert (k, v) (set xs)" for k v and xs :: "('a \<times> 'b) list"
    by (induction xs) auto
  from this [of "fst kv" "snd kv" "fold (case_prod AList.update) kvs al"] snoc show ?case
    by (cases kv) auto
qed

lemma fold_update_keys:
  "distinct (map fst al) \<Longrightarrow>
   map fst (fold (case_prod AList.update) kvs al) = rev (remdups (rev (map fst al @ map fst kvs)))"
proof (induction kvs rule: rev_induct)
  case Nil
  then show ?case by (simp add: distinct_remdups_id)
next
  case (snoc kv kvs)
  obtain k v where kv: "kv = (k, v)" by (cases kv)
  let ?T = "fold (case_prod AList.update) kvs al"
  have T: "map fst ?T = rev (remdups (rev (map fst al @ map fst kvs)))"
    using snoc by simp
  have "set (map fst ?T) = set (map fst al @ map fst kvs)"
    unfolding T by (simp only: set_rev set_remdups)
  then have "k \<in> set (map fst ?T) \<longleftrightarrow> k \<in> set (map fst al @ map fst kvs)"
    by simp
  then show ?case
    unfolding kv fold_update_snoc update_keys T by simp
qed

lemma fold_update_last:
  "j < length kvs \<Longrightarrow> \<forall>j'. j < j' \<and> j' < length kvs \<longrightarrow> fst (kvs ! j') \<noteq> fst (kvs ! j) \<Longrightarrow>
   map_of (fold (case_prod AList.update) kvs al) (fst (kvs ! j)) = Some (snd (kvs ! j))"
proof (induction kvs rule: rev_induct)
  case Nil
  then show ?case by simp
next
  case (snoc kv kvs)
  obtain k v where kv: "kv = (k, v)" by (cases kv)
  show ?case
  proof (cases "j = length kvs")
    case True
    then show ?thesis by (simp add: kv update_conv')
  next
    case False
    with snoc.prems(1) have j: "j < length kvs" by simp
    have later: "\<forall>j'. j < j' \<and> j' < length kvs \<longrightarrow> fst (kvs ! j') \<noteq> fst (kvs ! j)"
    proof (intro allI impI)
      fix j' assume a: "j < j' \<and> j' < length kvs"
      then have "fst ((kvs @ [kv]) ! j') \<noteq> fst ((kvs @ [kv]) ! j)"
        using snoc.prems(2) by simp
      with a j show "fst (kvs ! j') \<noteq> fst (kvs ! j)"
        by (simp add: nth_append)
    qed
    have "fst ((kvs @ [kv]) ! length kvs) \<noteq> fst ((kvs @ [kv]) ! j)"
      using snoc.prems(2) [rule_format, of "length kvs"] j by simp
    then have "k \<noteq> fst (kvs ! j)"
      using j by (simp add: kv nth_append)
    with snoc.IH [OF j later] j show ?thesis
      by (simp add: kv update_conv' nth_append)
  qed
qed

lemma remdups_shorter: "\<not> distinct ys \<Longrightarrow> length (remdups ys) < length ys"
proof -
  assume "\<not> distinct ys"
  then have "length (remdups ys) \<noteq> length ys"
    by (simp add: length_remdups_eq remdups_id_iff_distinct)
  moreover have "length (remdups ys) \<le> length ys"
    by (rule length_remdups_leq)
  ultimately show ?thesis by linarith
qed

lemma one_entry:
  "distinct (map fst xs) \<Longrightarrow> k \<in> fst ` set xs \<Longrightarrow> length (filter (\<lambda>kv. fst kv = k) xs) = 1"
proof (induction xs)
  case Nil
  then show ?case by simp
next
  case (Cons x xs)
  show ?case
  proof (cases "fst x = k")
    case True
    with Cons.prems have "filter (\<lambda>kv. fst kv = k) xs = []"
      by (force simp: filter_empty_conv image_iff)
    with True show ?thesis by simp
  next
    case False
    with Cons show ?thesis by auto
  qed
qed

lemma find_attrs_unique:
  assumes "c \<in> set (descendants row)"
      and "is_tag_named cell c" and "attr_matches (get_attr c key) sought"
      and "\<forall>d \<in> set (descendants row).
             is_tag_named cell d \<and> attr_matches (get_attr d key) sought \<longrightarrow> d = c"
  shows "find_attrs cell key sought row = Some c"
proof (cases "find_attrs cell key sought row")
  case None
  with assms(1-3) show ?thesis
    by (auto simp: find_attrs_def find_None_iff)
next
  case (Some d)
  then have "d \<in> set (descendants row)" "is_tag_named cell d \<and> attr_matches (get_attr d key) sought"
    by (auto simp: find_attrs_def find_Some_iff)
  with assms(4) Some show ?thesis by auto
qed

lemma get_table_located:
  assumes div: "locate_div parser soup div_id = Inr (Some table_div)"
      and thead: "find_name ''thead'' table_div = Some thead"
      and tbody: "find_name ''tbody'' table_div = Some tbody"
      and headers: "find_all ''th'' thead = h0 # hs"
      and rows: "find_all ''tr'' tbody = rows"
  shows "get_table parser soup div_id =
     (case those (map (cell_text ''th'' h0) rows) of
        None \<Rightarrow> Inl AttributeError
      | Some col0 \<Rightarrow>
          (case those (map (\<lambda>th. those (map (cell_text ''td'' th) rows)) hs) of
             None \<Rightarrow> Inl AttributeError
           | Some cols \<Rightarrow>
               Inr (Some (fold (case_prod AList.update)
                            (zip (map get_text (h0 # hs)) (col0 # cols)) []))))"
proof (cases "those (map (cell_text ''th'' h0) rows)")
  case None
  then show ?thesis
    by (simp add: get_table_def div thead tbody headers rows fill_column_those)
next
  case c0: (Some col0)
  have first: "fill_column ''th'' h0 rows [(get_text h0, [])] = Inr [(get_text h0, col0)]"
    by (simp add: fill_column_those c0)
  show ?thesis
  proof (cases "those (map (\<lambda>th. those (map (cell_text ''td'' th) rows)) hs)")
    case None
    then show ?thesis
      by (simp add: get_table_def div thead tbody headers rows first c0 fill_columns_those)
  next
    case cs: (Some cols)
    let ?tbl = "fold (case_prod AList.update) (zip (map get_text hs) cols) [(get_text h0, col0)]"
    have l0: "length col0 = length rows"
      using those_length [OF c0] by simp
    have ls: "length c = length rows" if "c \<in> set cols" for c
    proof -
      from cs have "map (\<lambda>th. those (map (cell_text ''td'' th) rows)) hs = map Some cols"
        by (simp add: those_Some_iff)
      then have "Some c \<in> set (map (\<lambda>th. those (map (cell_text ''td'' th) rows)) hs)"
        using that by simp
      then obtain th where "those (map (cell_text ''td'' th) rows) = Some c"
        by auto
      from those_length [OF this] show ?thesis by simp
    qed
    have "length (snd kv) = length rows" if "kv \<in> set ?tbl" for kv
    proof -
      from that fold_update_subset [of "zip (map get_text hs) cols" "[(get_text h0, col0)]"]
      have "kv = (get_text h0, col0) \<or> kv \<in> set (zip (map get_text hs) cols)"
        by auto
      then show ?thesis
        using l0 ls by (cases kv) (auto dest: set_zip_rightD)
    qed
    then have "list_all (\<lambda>kv. length (snd kv) = length rows) ?tbl"
      by (simp add: list_all_iff)
    from pd_DataFrame_dict_same_length [OF this] show ?thesis
      by (simp add: get_table_def div thead tbody headers rows first c0 cs fill_columns_those)
  qed
qed

lemma get_table_SomeD:
  assumes div: "locate_div parser soup div_id = Inr (Some table_div)"
      and thead: "find_name ''thead'' table_div = Some thead"
      and tbody: "find_name ''tbody'' table_div = Some tbody"
      and headers: "find_all ''th'' thead = headers"
      and rows: "find_all ''tr'' tbody = rows"
      and result: "get_table parser soup div_id = Inr (Some tbl)"
  obtains cols where "headers \<noteq> []" and "length cols = length headers"
    and "\<And>j. j < length headers \<Longrightarrow>
           map (cell_text (if j = 0 then ''th'' else ''td'') (headers ! j)) rows = map Some (cols ! j)"
    and "tbl = fold (case_prod AList.update) (zip (map get_text headers) cols) []"
proof (cases headers)
  case Nil
  with result show ?thesis
    by (simp add: get_table_def div thead tbody headers)
next
  case (Cons h0 hs)
  note loc = get_table_located [OF div thead tbody headers [unfolded Cons] rows]
  from result loc obtain col0 where c0: "those (map (cell_text ''th'' h0) rows) = Some col0"
    by (cases "those (map (cell_text ''th'' h0) rows)") auto
  from result loc c0 obtain cols
    where cs: "those (map (\<lambda>th. those (map (cell_text ''td'' th) rows)) hs) = Some cols"
    by (cases "those (map (\<lambda>th. those (map (cell_text ''td'' th) rows)) hs)") auto
  from result loc c0 cs
  have tbl: "tbl = fold (case_prod AList.update) (zip (map get_text headers) (col0 # cols)) []"
    by (simp add: Cons)
  from cs have m: "map (\<lambda>th. those (map (cell_text ''td'' th) rows)) hs = map Some cols"
    by (simp add: those_Some_iff)
  then have len: "length cols = length hs"
    by (metis length_map)
  have cells: "map (cell_text (if j = 0 then ''th'' else ''td'') (headers ! j)) rows
                 = map Some ((col0 # cols) ! j)" if "j < length headers" for j
  proof (cases j)
    case 0
    with c0 show ?thesis by (simp add: Cons those_Some_iff)
  next
    case (Suc i)
    with that have i: "i < length hs" by (simp add: Cons)
    from m have "map (\<lambda>th. those (map (cell_text ''td'' th) rows)) hs ! i = map Some cols ! i"
      by simp
    with i len have "those (map (cell_text ''td'' (hs ! i)) rows) = Some (cols ! i)"
      by simp
    then show ?thesis
      by (simp add: Suc Cons those_Some_iff)
  qed
  show ?thesis
    by (rule that [of "col0 # cols"]) (use Cons len cells tbl in auto)
qed

lemma get_table_Some_located:
  assumes "get_table parser soup div_id = Inr (Some tbl)"
  obtains table_div thead tbody
  where "locate_div parser soup div_id = Inr (Some table_div)"
    and "find_name ''thead'' table_div = Some thead"
    and "find_name ''tbody'' table_div = Some tbody"
  using assms
  by (auto simp: get_table_def split: sum.splits option.splits)

text \<open>
  The outcomes of \<open>get_table\<close> when the table cannot be built: a div found directly
  without a header or a body section gives None; with no div found directly, the
  search over the comments raises NameError as soon as the document holds a text or
  a comment that is not empty, and gives None on a document that holds none.
\<close>

lemma get_table_without_sections:
  assumes "find_attrs ''div'' ''id'' (Some div_id) soup = Some table_div"
      and "find_name ''thead'' table_div = None \<or> find_name ''tbody'' table_div = None"
  shows "get_table parser soup div_id = Inr None"
  using assms by (auto simp: get_table_def locate_div_def split: option.splits)

lemma get_table_without_strings:
  assumes "find_attrs ''div'' ''id'' (Some div_id) soup = None"
      and "list_all (\<lambda>n. string_of n = None \<or> string_of n = Some []) (descendants soup)"
  shows "get_table parser soup div_id = Inr None"
proof -
  have "select_strings f ns = Inr []" if "list_all (\<lambda>n. string_of n = None \<or> string_of n = Some []) ns"
    for f ns
    using that by (induction ns) auto
  with assms show ?thesis
    by (simp add: get_table_def locate_div_def find_all_string_def)
qed

lemma get_table_fallback_raises:
  assumes "find_attrs ''div'' ''id'' (Some div_id) soup = None"
      and "n \<in> set (descendants soup)" and "string_of n = Some s" and "s \<noteq> []"
  shows "get_table parser soup div_id = Inl NameError"
proof -
  have "select_strings comment_lambda ns = Inl NameError" if "n \<in> set ns" for ns
    using that assms(3,4) by (induction ns) (auto simp: comment_lambda_def split: option.splits)
  with assms show ?thesis
    by (simp add: get_table_def locate_div_def find_all_string_def)
qed

section \<open>Results\<close>

text \<open>
  C1. \<open>get_all_players\<close> is documented to return a DataFrame and returns an empty one
  on the sibling path (a page without rows). When a request fails it does abort at
  once, but with the statement \<open>return [], []\<close>: in the world \<open>b_down\<close> the page of the
  letter a yields a row, the request for the letter b fails, and the result is the
  pair of two empty lists, which is not the empty DataFrame.
\<close>

theorem get_all_players_request_failure_returns_pair:
  "letters_loop b_down ''a'' [] []
     = Finished [''Player'', ''From'']
         [[PyStr ''Bo B'', PyStr ''1991'', PyStr ''/p/b.html'', PyInt 0, PyBool False]]
   \<and> http_get b_down (url_of CHR ''b'') = None
   \<and> get_all_players b_down True = Inr (TupleOfLists [] [])
   \<and> get_all_players b_down True \<noteq> Inr (DataFrame [] [])"
  by code_simp

text \<open>
  C2. On the page \<open>hidden_page\<close> the div with the identifier stands only inside a
  comment, the comment contains the identifier, and the comment's markup parses to a
  document on which \<open>get_table\<close> yields the table. \<open>get_table\<close> on the page itself does
  not return that table: the search for the comments raises NameError, because the
  name \<open>Comment\<close> of line 91 is not defined in the module.
\<close>

theorem get_table_hidden_in_comment_raises:
  "find_attrs ''div'' ''id'' (Some ''t'') hidden_page = None
   \<and> contains hidden_markup ''t''
   \<and> get_table hidden_parser (hidden_parser hidden_markup) ''t'' = Inr (Some [(''G'', [''5''])])
   \<and> get_table hidden_parser hidden_page ''t'' = Inl NameError"
  by code_simp

text \<open>
  C3. On the page \<open>plain_page\<close>, which has no div at all and no comment, \<open>get_table\<close>
  does not return None: the fallback search over the comments is entered and raises
  NameError on the page's first piece of text.
\<close>

theorem get_table_no_table_raises:
  "find_attrs ''div'' ''id'' (Some ''t'') plain_page = None
   \<and> get_table hidden_parser plain_page ''t'' = Inl NameError"
  by code_simp

text \<open>
  C4, as amended. Let the div be found, with its header section, its body section and
  at least one header cell. The cell for a header is looked up in a row by the
  header's \<open>data-stat\<close> key (\<open>th\<close> cells for the first header, \<open>td\<close> cells for the
  others), so:
  \<^item> if some body row has no cell for some header, \<open>get_table\<close> raises AttributeError;
  \<^item> otherwise it returns a table;
  \<^item> in a returned table, for every header cell whose text no later header cell
    repeats, the column under that text has one value per body row, the text of that
    row's cell for the header;
  \<^item> the cell for a header is found wherever it stands in the row: when exactly one
    descendant of the row has the cell tag and matches the header's key, its text is
    the value;
  \<^item> for a key that is not empty, matching the key is carrying it as \<open>data-stat\<close>.
\<close>

theorem get_table_aligns_by_key:
  assumes div: "locate_div parser soup div_id = Inr (Some table_div)"
      and thead: "find_name ''thead'' table_div = Some thead"
      and tbody: "find_name ''tbody'' table_div = Some tbody"
      and headers: "find_all ''th'' thead = headers"
      and nonempty: "headers \<noteq> []"
      and rows: "find_all ''tr'' tbody = rows"
  shows "((\<exists>row \<in> set rows. \<exists>j < length headers.
             cell_text (if j = 0 then ''th'' else ''td'') (headers ! j) row = None)
            \<longrightarrow> get_table parser soup div_id = Inl AttributeError)
       \<and> ((\<forall>row \<in> set rows. \<forall>j < length headers.
             cell_text (if j = 0 then ''th'' else ''td'') (headers ! j) row \<noteq> None)
            \<longrightarrow> (\<exists>tbl. get_table parser soup div_id = Inr (Some tbl)))
       \<and> (\<forall>tbl j. get_table parser soup div_id = Inr (Some tbl) \<and> j < length headers
              \<and> (\<forall>j'. j < j' \<and> j' < length headers
                        \<longrightarrow> get_text (headers ! j') \<noteq> get_text (headers ! j))
            \<longrightarrow> (\<exists>col. map_of tbl (get_text (headers ! j)) = Some col
                    \<and> length col = length rows
                    \<and> (\<forall>i < length rows.
                          cell_text (if j = 0 then ''th'' else ''td'') (headers ! j) (rows ! i)
                            = Some (col ! i))))
       \<and> (\<forall>row cell th c.
              c \<in> set (descendants row) \<and> is_tag_named cell c
            \<and> attr_matches (get_attr c ''data-stat'') (get_attr th ''data-stat'')
            \<and> (\<forall>d \<in> set (descendants row).
                  is_tag_named cell d
                  \<and> attr_matches (get_attr d ''data-stat'') (get_attr th ''data-stat'') \<longrightarrow> d = c)
            \<longrightarrow> cell_text cell th row = Some (get_text c))
       \<and> (\<forall>actual key. key \<noteq> [] \<longrightarrow> attr_matches actual (Some key) = (actual = Some key))"
proof -
  obtain h0 hs where hd: "headers = h0 # hs"
    using nonempty by (cases headers) auto
  note loc = get_table_located [OF div thead tbody headers [unfolded hd] rows]
  let ?cell = "\<lambda>j. if j = 0 then ''th'' else ''td''"
  have missing: "get_table parser soup div_id = Inl AttributeError"
    if "\<exists>row \<in> set rows. \<exists>j < length headers. cell_text (?cell j) (headers ! j) row = None"
  proof -
    from that obtain row j where row: "row \<in> set rows" and j: "j < length headers"
      and none: "cell_text (?cell j) (headers ! j) row = None"
      by blast
    show ?thesis
    proof (cases j)
      case 0
      with none row have "None \<in> set (map (cell_text ''th'' h0) rows)"
        by (force simp: hd)
      then have "those (map (cell_text ''th'' h0) rows) = None"
        by (simp only: those_None_iff)
      then show ?thesis by (simp add: loc)
    next
      case (Suc i)
      with j have i: "i < length hs" by (simp add: hd)
      from none row Suc have "None \<in> set (map (cell_text ''td'' (hs ! i)) rows)"
        by (force simp: hd)
      then have "those (map (cell_text ''td'' (hs ! i)) rows) = None"
        by (simp only: those_None_iff)
      with i have "None \<in> set (map (\<lambda>th. those (map (cell_text ''td'' th) rows)) hs)"
        by (force simp: in_set_conv_nth)
      then have "those (map (\<lambda>th. those (map (cell_text ''td'' th) rows)) hs) = None"
        by (simp only: those_None_iff)
      then show ?thesis by (simp add: loc split: option.splits)
    qed
  qed
  have present: "\<exists>tbl. get_table parser soup div_id = Inr (Some tbl)"
    if all: "\<forall>row \<in> set rows. \<forall>j < length headers. cell_text (?cell j) (headers ! j) row \<noteq> None"
  proof -
    have "cell_text ''th'' h0 row \<noteq> None" if "row \<in> set rows" for row
      using all [rule_format, OF that, of 0] by (simp add: hd)
    from those_all_Some [of rows "cell_text ''th'' h0", OF this]
    obtain col0 where c0: "those (map (cell_text ''th'' h0) rows) = Some col0"
      by blast
    have "those (map (cell_text ''td'' th) rows) \<noteq> None" if "th \<in> set hs" for th
    proof -
      from that obtain i where i: "i < length hs" and th: "th = hs ! i"
        by (auto simp: in_set_conv_nth)
      have "cell_text ''td'' th row \<noteq> None" if "row \<in> set rows" for row
        using all [rule_format, OF that, of "Suc i"] i th by (simp add: hd)
      from those_all_Some [of rows "cell_text ''td'' th", OF this] show ?thesis
        by auto
    qed
    from those_all_Some [of hs "\<lambda>th. those (map (cell_text ''td'' th) rows)", OF this]
    obtain cols where "those (map (\<lambda>th. those (map (cell_text ''td'' th) rows)) hs) = Some cols"
      by blast
    with c0 show ?thesis by (simp add: loc)
  qed
  have column: "\<exists>col. map_of tbl (get_text (headers ! j)) = Some col
                    \<and> length col = length rows
                    \<and> (\<forall>i < length rows. cell_text (?cell j) (headers ! j) (rows ! i) = Some (col ! i))"
    if result: "get_table parser soup div_id = Inr (Some tbl)" and j: "j < length headers"
      and later: "\<forall>j'. j < j' \<and> j' < length headers
                        \<longrightarrow> get_text (headers ! j') \<noteq> get_text (headers ! j)"
    for tbl j
  proof -
    from get_table_SomeD [OF div thead tbody headers rows result]
    obtain cols where len: "length cols = length headers"
      and cells: "\<And>j. j < length headers \<Longrightarrow>
           map (cell_text (?cell j) (headers ! j)) rows = map Some (cols ! j)"
      and tbl: "tbl = fold (case_prod AList.update) (zip (map get_text headers) cols) []"
      by blast
    let ?kvs = "zip (map get_text headers) cols"
    have jk: "j < length ?kvs" using j len by simp
    have "\<forall>j'. j < j' \<and> j' < length ?kvs \<longrightarrow> fst (?kvs ! j') \<noteq> fst (?kvs ! j)"
      using later len j by simp
    from fold_update_last [OF jk this, of "[]"]
    have look: "map_of tbl (get_text (headers ! j)) = Some (cols ! j)"
      using j len by (simp add: tbl)
    have m: "map (cell_text (?cell j) (headers ! j)) rows = map Some (cols ! j)"
      by (rule cells [OF j])
    then have l: "length (cols ! j) = length rows"
      by (metis length_map)
    have "cell_text (?cell j) (headers ! j) (rows ! i) = Some (cols ! j ! i)" if "i < length rows" for i
    proof -
      have "map (cell_text (?cell j) (headers ! j)) rows ! i = map Some (cols ! j) ! i"
        by (simp only: m)
      with that l show ?thesis by simp
    qed
    with look l show ?thesis by blast
  qed
  have by_key: "cell_text cell th row = Some (get_text c)"
    if "c \<in> set (descendants row)" "is_tag_named cell c"
       "attr_matches (get_attr c ''data-stat'') (get_attr th ''data-stat'')"
       "\<forall>d \<in> set (descendants row).
          is_tag_named cell d
          \<and> attr_matches (get_attr d ''data-stat'') (get_attr th ''data-stat'') \<longrightarrow> d = c"
    for row cell th c
  proof -
    have "find_attrs cell ''data-stat'' (get_attr th ''data-stat'') row = Some c"
      using that by (rule find_attrs_unique)
    then show ?thesis
      by (simp add: cell_text_def)
  qed
  have keyed: "attr_matches actual (Some key) = (actual = Some key)" if "key \<noteq> []"
    for actual and key :: string
    using that by (auto simp: attr_matches_def split: option.splits)
  show ?thesis
  proof (intro conjI impI allI)
    assume "\<exists>row \<in> set rows. \<exists>j < length headers. cell_text (?cell j) (headers ! j) row = None"
    then show "get_table parser soup div_id = Inl AttributeError"
      by (rule missing)
  next
    assume "\<forall>row \<in> set rows. \<forall>j < length headers. cell_text (?cell j) (headers ! j) row \<noteq> None"
    then show "\<exists>tbl. get_table parser soup div_id = Inr (Some tbl)"
      by (rule present)
  next
    fix tbl j
    assume a: "get_table parser soup div_id = Inr (Some tbl) \<and> j < length headers
              \<and> (\<forall>j'. j < j' \<and> j' < length headers
                        \<longrightarrow> get_text (headers ! j') \<noteq> get_text (headers ! j))"
    show "\<exists>col. map_of tbl (get_text (headers ! j)) = Some col
                    \<and> length col = length rows
                    \<and> (\<forall>i < length rows. cell_text (?cell j) (headers ! j) (rows ! i) = Some (col ! i))"
      by (rule column [OF conjunct1 [OF a] conjunct1 [OF conjunct2 [OF a]]
                          conjunct2 [OF conjunct2 [OF a]]])
  next
    fix row cell th c
    assume a: "c \<in> set (descendants row) \<and> is_tag_named cell c
            \<and> attr_matches (get_attr c ''data-stat'') (get_attr th ''data-stat'')
            \<and> (\<forall>d \<in> set (descendants row).
                  is_tag_named cell d
                  \<and> attr_matches (get_attr d ''data-stat'') (get_attr th ''data-stat'') \<longrightarrow> d = c)"
    show "cell_text cell th row = Some (get_text c)"
      by (rule by_key [OF conjunct1 [OF a] conjunct1 [OF conjunct2 [OF a]]
                          conjunct1 [OF conjunct2 [OF conjunct2 [OF a]]]
                          conjunct2 [OF conjunct2 [OF conjunct2 [OF a]]]])
  next
    fix actual and key :: string
    assume "key \<noteq> []"
    then show "attr_matches actual (Some key) = (actual = Some key)"
      by (rule keyed)
  qed
qed

text \<open>
  On \<open>season_page\<close> the body cells stand in the reverse of the header's order and the
  column \<open>PTS\<close> still holds the cells keyed \<open>pts\<close>; on \<open>gap_page\<close> the second row has no
  such cell and \<open>get_table\<close> raises AttributeError.
\<close>

theorem get_table_aligns_by_key_witness:
  "locate_div hidden_parser season_page ''t'' = Inr (Some season_div)
   \<and> find_name ''thead'' season_div = Some season_thead
   \<and> find_name ''tbody'' season_div = Some season_tbody
   \<and> find_all ''th'' season_thead = season_headers
   \<and> season_headers \<noteq> []
   \<and> find_all ''tr'' season_tbody = reversed_rows
   \<and> get_table hidden_parser season_page ''t'' = Inr (Some season_table)
   \<and> (\<exists>col. map_of season_table (get_text (season_headers ! 2)) = Some col
          \<and> length col = length reversed_rows
          \<and> (\<forall>i < length reversed_rows.
                cell_text ''td'' (season_headers ! 2) (reversed_rows ! i) = Some (col ! i)))
   \<and> cell_text ''td'' (season_headers ! 2) (reversed_rows ! 0) = Some ''10''
   \<and> locate_div hidden_parser gap_page ''t'' = Inr (Some gap_div)
   \<and> find_name ''thead'' gap_div = Some season_thead
   \<and> find_name ''tbody'' gap_div = Some gap_tbody
   \<and> find_all ''tr'' gap_tbody = gap_rows
   \<and> cell_text ''td'' (season_headers ! 2) (gap_rows ! 1) = None
   \<and> get_table hidden_parser gap_page ''t'' = Inl AttributeError"
proof -
  have h1: "locate_div hidden_parser season_page ''t'' = Inr (Some season_div)"
    by code_simp
  have h2: "find_name ''thead'' season_div = Some season_thead"
    by code_simp
  have h3: "find_name ''tbody'' season_div = Some season_tbody"
    by code_simp
  have h4: "find_all ''th'' season_thead = season_headers"
    by code_simp
  have h5: "season_headers \<noteq> []"
    by code_simp
  have h6: "find_all ''tr'' season_tbody = reversed_rows"
    by code_simp
  have r: "get_table hidden_parser season_page ''t'' = Inr (Some season_table)"
    by code_simp
  have len: "length season_headers = 3"
    by code_simp
  have j: "2 < length season_headers"
    by (simp add: len)
  have later: "\<forall>j'. 2 < j' \<and> j' < length season_headers
                 \<longrightarrow> get_text (season_headers ! j') \<noteq> get_text (season_headers ! 2)"
    by (auto simp: len)
  note t = get_table_aligns_by_key [OF h1 h2 h3 h4 h5 h6]
  note column = conjunct1 [OF conjunct2 [OF conjunct2 [OF t]]]
  from column [rule_format, of season_table 2, OF conjI [OF r conjI [OF j later]]]
  have c: "\<exists>col. map_of season_table (get_text (season_headers ! 2)) = Some col
          \<and> length col = length reversed_rows
          \<and> (\<forall>i < length reversed_rows.
                cell_text ''td'' (season_headers ! 2) (reversed_rows ! i) = Some (col ! i))"
    by simp
  have v: "cell_text ''td'' (season_headers ! 2) (reversed_rows ! 0) = Some ''10''"
    by code_simp
  have g1: "locate_div hidden_parser gap_page ''t'' = Inr (Some gap_div)"
    by code_simp
  have g2: "find_name ''thead'' gap_div = Some season_thead"
    by code_simp
  have g3: "find_name ''tbody'' gap_div = Some gap_tbody"
    by code_simp
  have g6: "find_all ''tr'' gap_tbody = gap_rows"
    by code_simp
  have none: "cell_text ''td'' (season_headers ! 2) (gap_rows ! 1) = None"
    by code_simp
  have row: "gap_rows ! 1 \<in> set gap_rows"
    by code_simp
  have "\<exists>j < length season_headers.
          cell_text (if j = 0 then ''th'' else ''td'') (season_headers ! j) (gap_rows ! 1) = None"
    using j none by (intro exI [of _ 2]) simp
  with row have missing: "\<exists>row \<in> set gap_rows. \<exists>j < length season_headers.
          cell_text (if j = 0 then ''th'' else ''td'') (season_headers ! j) row = None"
    by (rule bexI [rotated])
  note u = get_table_aligns_by_key [OF g1 g2 g3 h4 h5 g6]
  from mp [OF conjunct1 [OF u] missing]
  have e: "get_table hidden_parser gap_page ''t'' = Inl AttributeError" .
  show ?thesis
    by (intro conjI) (rule h1 h2 h3 h4 h5 h6 r c v g1 g2 g3 g6 none e)+
qed

text \<open>
  C4 as stated fails when a later header cell repeats a header's text. On \<open>twin_page\<close>
  the second header cell has the text \<open>G\<close> and the key \<open>g\<close>, and the first body row's
  cell for that key holds 5; the returned column \<open>G\<close> starts with 10, the value of the
  third header's key: the values of the key \<open>g\<close> are under no column.
\<close>

theorem get_table_repeated_text_counterexample:
  "find_all ''th'' twin_thead = twin_headers
   \<and> find_all ''tr'' season_tbody = reversed_rows
   \<and> get_table hidden_parser twin_page ''t'' = Inr (Some twin_table)
   \<and> get_text (twin_headers ! 1) = ''G''
   \<and> get_attr (twin_headers ! 1) ''data-stat'' = Some ''g''
   \<and> cell_text ''td'' (twin_headers ! 1) (reversed_rows ! 0) = Some ''5''
   \<and> map_of twin_table ''G'' = Some [''10'', ''20'']
   \<and> [''10'', ''20''] ! 0 \<noteq> ''5''"
  by code_simp

text \<open>
  C5. Every table that \<open>get_table\<close> returns comes from a div with a header section and
  a body section, and with \<open>headers\<close> the header cells and \<open>rows\<close> the rows found in
  them: every column has as many values as there are rows; the column keys are the
  header texts in the order of the header cells (\<open>rev (remdups (rev xs))\<close> is \<open>xs\<close> with
  each repeated text kept at its first place, so the keys are exactly the header
  texts when these are distinct); and every column is, row by row in the order of the
  body section, the cells of one header.
\<close>

theorem get_table_shape:
  assumes "get_table parser soup div_id = Inr (Some tbl)"
  shows "\<exists>table_div thead tbody headers rows.
           locate_div parser soup div_id = Inr (Some table_div)
         \<and> find_name ''thead'' table_div = Some thead
         \<and> find_name ''tbody'' table_div = Some tbody
         \<and> headers = find_all ''th'' thead
         \<and> rows = find_all ''tr'' tbody
         \<and> list_all (\<lambda>kv. length (snd kv) = length rows) tbl
         \<and> map fst tbl = rev (remdups (rev (map get_text headers)))
         \<and> (distinct (map get_text headers) \<longrightarrow> map fst tbl = map get_text headers)
         \<and> (\<forall>kv \<in> set tbl. \<exists>j < length headers.
               fst kv = get_text (headers ! j)
             \<and> map (cell_text (if j = 0 then ''th'' else ''td'') (headers ! j)) rows
                 = map Some (snd kv))"
proof -
  from assms obtain table_div thead tbody
    where div: "locate_div parser soup div_id = Inr (Some table_div)"
      and thead: "find_name ''thead'' table_div = Some thead"
      and tbody: "find_name ''tbody'' table_div = Some tbody"
    by (rule get_table_Some_located)
  define headers where "headers = find_all ''th'' thead"
  define rows where "rows = find_all ''tr'' tbody"
  from get_table_SomeD [OF div thead tbody headers_def [symmetric] rows_def [symmetric] assms]
  obtain cols where len: "length cols = length headers"
    and cells: "\<And>j. j < length headers \<Longrightarrow>
           map (cell_text (if j = 0 then ''th'' else ''td'') (headers ! j)) rows = map Some (cols ! j)"
    and tbl: "tbl = fold (case_prod AList.update) (zip (map get_text headers) cols) []"
    by blast
  let ?kvs = "zip (map get_text headers) cols"
  have sub: "set tbl \<subseteq> set ?kvs"
    using fold_update_subset [of ?kvs "[]"] by (simp add: tbl)
  have origin: "\<exists>j < length headers. fst kv = get_text (headers ! j)
             \<and> map (cell_text (if j = 0 then ''th'' else ''td'') (headers ! j)) rows
                 = map Some (snd kv)" if "kv \<in> set tbl" for kv
  proof -
    from that sub have "kv \<in> set ?kvs" by blast
    then obtain j where j: "j < length ?kvs" and kv: "kv = ?kvs ! j"
      by (auto simp: in_set_conv_nth)
    from j len have jh: "j < length headers" by simp
    with kv len have f: "fst kv = get_text (headers ! j)" and s: "snd kv = cols ! j"
      by simp_all
    have "map (cell_text (if j = 0 then ''th'' else ''td'') (headers ! j)) rows = map Some (snd kv)"
      unfolding s by (rule cells [OF jh])
    with jh f show ?thesis by blast
  qed
  then have origin': "\<forall>kv \<in> set tbl. \<exists>j < length headers.
               fst kv = get_text (headers ! j)
             \<and> map (cell_text (if j = 0 then ''th'' else ''td'') (headers ! j)) rows
                 = map Some (snd kv)"
    by blast
  have lens: "list_all (\<lambda>kv. length (snd kv) = length rows) tbl"
    unfolding list_all_iff
  proof
    fix kv assume "kv \<in> set tbl"
    from origin [OF this] obtain j where
      "map (cell_text (if j = 0 then ''th'' else ''td'') (headers ! j)) rows = map Some (snd kv)"
      by blast
    then show "length (snd kv) = length rows"
      by (metis length_map)
  qed
  have "map fst ?kvs = map get_text headers"
    using len by simp
  then have keys: "map fst tbl = rev (remdups (rev (map get_text headers)))"
    using fold_update_keys [of "[]" ?kvs] by (simp add: tbl)
  then have dk: "distinct (map get_text headers) \<longrightarrow> map fst tbl = map get_text headers"
    by (simp add: distinct_remdups_id)
  have h: "headers = find_all ''th'' thead" and r: "rows = find_all ''tr'' tbody"
    by (simp_all only: headers_def rows_def)
  note body = conjI [OF div conjI [OF thead conjI [OF tbody conjI [OF h conjI [OF r
                conjI [OF lens conjI [OF keys conjI [OF dk origin']]]]]]]]
  show ?thesis
    by (rule exI)+ (rule body)
qed

text \<open>The table of \<open>season_page\<close>: three columns in header order, two values each.\<close>

theorem get_table_shape_witness:
  "get_table hidden_parser season_page ''t'' = Inr (Some season_table)
   \<and> (\<exists>table_div thead tbody headers rows.
           locate_div hidden_parser season_page ''t'' = Inr (Some table_div)
         \<and> find_name ''thead'' table_div = Some thead
         \<and> find_name ''tbody'' table_div = Some tbody
         \<and> headers = find_all ''th'' thead
         \<and> rows = find_all ''tr'' tbody
         \<and> list_all (\<lambda>kv. length (snd kv) = length rows) season_table
         \<and> map fst season_table = rev (remdups (rev (map get_text headers)))
         \<and> (distinct (map get_text headers) \<longrightarrow> map fst season_table = map get_text headers)
         \<and> (\<forall>kv \<in> set season_table. \<exists>j < length headers.
               fst kv = get_text (headers ! j)
             \<and> map (cell_text (if j = 0 then ''th'' else ''td'') (headers ! j)) rows
                 = map Some (snd kv)))
   \<and> find_all ''tr'' season_tbody = reversed_rows
   \<and> length reversed_rows = 2
   \<and> map get_text (find_all ''th'' season_thead) = [''Season'', ''G'', ''PTS'']"
proof -
  have h: "get_table hidden_parser season_page ''t'' = Inr (Some season_table)"
    by code_simp
  have r: "find_all ''tr'' season_tbody = reversed_rows"
    by code_simp
  have l: "length reversed_rows = 2"
    by code_simp
  have t: "map get_text (find_all ''th'' season_thead) = [''Season'', ''G'', ''PTS'']"
    by code_simp
  show ?thesis
    by (rule conjI [OF h conjI [OF get_table_shape [OF h] conjI [OF r conjI [OF l t]]]])
qed

text \<open>
  C6, as amended. For every row for which a record is emitted, the name cell's text is
  not empty, the record's last field \<open>is_hof\<close> is the boolean "the text ends in an
  asterisk", and the stored name is the text with all its trailing asterisks removed:
  the text is the stored name followed by \<open>k\<close> asterisks, the stored name does not end
  in an asterisk, and \<open>is_hof\<close> is true exactly when \<open>k\<close> is positive. So a text that does
  not end in an asterisk (\<open>k = 0\<close>) is stored unchanged with \<open>is_hof\<close> false.
\<close>

theorem scrape_row_hof_and_name:
  assumes "find_all ''th'' row = th # ths" and "scrape_row row = Inr record"
  shows "\<exists>link n k.
           record = PyStr (rstrip_star (get_text th)) # map PyStr (map get_text (find_all ''td'' row))
                      @ [PyStr link, PyInt n, PyBool (last (get_text th) = CHR ''*'')]
           \<and> get_text th \<noteq> []
           \<and> get_text th = rstrip_star (get_text th) @ replicate k CHR ''*''
           \<and> (rstrip_star (get_text th) = [] \<or> last (rstrip_star (get_text th)) \<noteq> CHR ''*'')
           \<and> ((last (get_text th) = CHR ''*'') = (0 < k))"
proof -
  let ?k = "length (takeWhile (\<lambda>c. c = CHR ''*'') (rev (get_text th)))"
  note r = scrape_row_Inr [OF assms]
  have "get_text th = rstrip_star (get_text th) @ replicate ?k CHR ''*''"
    by (rule rstrip_star_decompose)
  moreover have "(last (get_text th) = CHR ''*'') = (0 < ?k)"
    using stars_iff_last [OF r(1)] by simp
  ultimately show ?thesis
    using r(1,2) rstrip_star_no_trailing [of "get_text th"] by blast
qed

text \<open>The row of Ed E*, one trailing asterisk: stored as Ed E with \<open>is_hof\<close> true.\<close>

theorem scrape_row_hof_and_name_witness:
  "find_all ''th'' star_row = [star_cell]
   \<and> scrape_row star_row = Inr [PyStr ''Ed E'', PyStr ''1980'', PyStr ''/p/e.html'', PyInt 0, PyBool True]
   \<and> (\<exists>link n k.
           [PyStr ''Ed E'', PyStr ''1980'', PyStr ''/p/e.html'', PyInt 0, PyBool True]
             = PyStr (rstrip_star (get_text star_cell)) # map PyStr (map get_text (find_all ''td'' star_row))
                      @ [PyStr link, PyInt n, PyBool (last (get_text star_cell) = CHR ''*'')]
           \<and> get_text star_cell \<noteq> []
           \<and> get_text star_cell = rstrip_star (get_text star_cell) @ replicate k CHR ''*''
           \<and> (rstrip_star (get_text star_cell) = [] \<or> last (rstrip_star (get_text star_cell)) \<noteq> CHR ''*'')
           \<and> ((last (get_text star_cell) = CHR ''*'') = (0 < k)))"
proof -
  have h1: "find_all ''th'' star_row = [star_cell]"
    by code_simp
  have h2: "scrape_row star_row = Inr [PyStr ''Ed E'', PyStr ''1980'', PyStr ''/p/e.html'', PyInt 0, PyBool True]"
    by code_simp
  show ?thesis
    by (rule conjI [OF h1 conjI [OF h2 scrape_row_hof_and_name [OF h1 h2]]])
qed

text \<open>
  C6 as stated fails on a name cell whose text ends in two asterisks: the text
  \<open>Al A**\<close> with its trailing asterisk removed is \<open>Al A*\<close>, and the record stores
  \<open>Al A\<close>.
\<close>

theorem scrape_row_two_stars_counterexample:
  "find_all ''th'' hof_row = [hof_cell]
   \<and> get_text hof_cell = ''Al A**''
   \<and> scrape_row hof_row = Inr [PyStr ''Al A'', PyStr ''1990'', PyStr ''/p/a.html'', PyInt 0, PyBool True]
   \<and> ''Al A'' \<noteq> butlast ''Al A**''"
  by code_simp

text \<open>
  C7, as amended. For every row for which a record is emitted, \<open>is_hof\<close> is a boolean
  and \<open>is_active\<close> is an integer, the number of \<open>strong\<close> elements inside the name cell;
  that number is positive exactly when the cell contains at least one such element.
\<close>

theorem scrape_row_flags:
  assumes "find_all ''th'' row = th # ths" and "scrape_row row = Inr record"
  shows "\<exists>link hof.
           record = PyStr (rstrip_star (get_text th)) # map PyStr (map get_text (find_all ''td'' row))
                      @ [PyStr link, PyInt (length (find_all ''strong'' th)), PyBool hof]
           \<and> ((0 < length (find_all ''strong'' th))
                = (\<exists>s \<in> set (descendants th). is_tag_named ''strong'' s))"
proof -
  have "(0 < length (find_all ''strong'' th)) = (\<exists>s \<in> set (descendants th). is_tag_named ''strong'' s)"
    by (auto simp: find_all_def filter_empty_conv)
  then show ?thesis
    using scrape_row_Inr(2) [OF assms] by blast
qed

text \<open>The row whose name stands in two bold markers: \<open>is_active\<close> is 2.\<close>

theorem scrape_row_flags_witness:
  "find_all ''th'' bold_row = [bold_cell]
   \<and> scrape_row bold_row = Inr [PyStr ''Cy C'', PyStr ''2020'', PyStr ''/p/c.html'', PyInt 2, PyBool False]
   \<and> (\<exists>link hof.
           [PyStr ''Cy C'', PyStr ''2020'', PyStr ''/p/c.html'', PyInt 2, PyBool False]
             = PyStr (rstrip_star (get_text bold_cell)) # map PyStr (map get_text (find_all ''td'' bold_row))
                      @ [PyStr link, PyInt (length (find_all ''strong'' bold_cell)), PyBool hof]
           \<and> ((0 < length (find_all ''strong'' bold_cell))
                = (\<exists>s \<in> set (descendants bold_cell). is_tag_named ''strong'' s)))"
proof -
  have h1: "find_all ''th'' bold_row = [bold_cell]"
    by code_simp
  have h2: "scrape_row bold_row = Inr [PyStr ''Cy C'', PyStr ''2020'', PyStr ''/p/c.html'', PyInt 2, PyBool False]"
    by code_simp
  show ?thesis
    by (rule conjI [OF h1 conjI [OF h2 scrape_row_flags [OF h1 h2]]])
qed

text \<open>
  C7 as stated fails on the same row: the emitted \<open>is_active\<close> is the integer 2, which
  is neither of the two booleans.
\<close>

theorem scrape_row_is_active_counterexample:
  "scrape_row bold_row = Inr [PyStr ''Cy C'', PyStr ''2020'', PyStr ''/p/c.html'', PyInt 2, PyBool False]
   \<and> PyInt 2 \<noteq> PyBool True \<and> PyInt 2 \<noteq> PyBool False"
  by code_simp




text \<open>
  C9. Let the loop over the letters reach a letter (the letters before it went
  through), let the request for it succeed and its page have, after the header row, a
  row whose name cell has no text. Then that row emits no record: \<open>name[-1]\<close> raises
  IndexError (unless the link extraction before it has already raised KeyError, on
  a single anchor without \<open>href\<close>), and \<open>get_all_players\<close> ends in an exception: it
  returns neither a table nor an empty result.
\<close>

theorem get_all_players_empty_name_raises:
  assumes letters: "ascii_lowercase = before @ letter # after"
      and reached: "letters_loop w before [] [] = Finished headers df_list"
      and response: "http_get w (url_of letter) = Some content"
      and page: "find_all ''tr'' (html_parser w content) = tr0 # tr"
      and row: "row \<in> set tr"
      and cell: "find_all ''th'' row = th # ths"
      and name: "get_text th = []"
  shows "scrape_row row =
           (if length (find_all ''a'' th) = 1 \<and> get_attr (hd (find_all ''a'' th)) ''href'' = None
            then Inl KeyError else Inl IndexError)
         \<and> (get_all_players w save_results = Inl IndexError
              \<or> get_all_players w save_results = Inl KeyError)"
proof -
  have r: "scrape_row row =
           (if length (find_all ''a'' th) = 1 \<and> get_attr (hd (find_all ''a'' th)) ''href'' = None
            then Inl KeyError else Inl IndexError)"
    by (rule scrape_row_empty_name [OF cell name])
  then obtain e where "scrape_row row = Inl e"
    by (cases "length (find_all ''a'' th) = 1 \<and> get_attr (hd (find_all ''a'' th)) ''href'' = None") auto
  from scrape_rows_raises [OF row this]
  have rows: "scrape_rows tr [] = Inl IndexError \<or> scrape_rows tr [] = Inl KeyError" .
  have "letters_loop w ascii_lowercase [] [] = letters_loop w (letter # after) headers df_list"
    by (simp add: letters letters_loop_append reached)
  also have "\<dots> = Raised IndexError \<or> \<dots> = Raised KeyError"
    using rows by (auto simp: response page)
  finally
  have "letters_loop w ascii_lowercase [] [] = Raised IndexError
        \<or> letters_loop w ascii_lowercase [] [] = Raised KeyError" .
  then have "get_all_players w save_results = Inl IndexError
             \<or> get_all_players w save_results = Inl KeyError"
    by (auto simp: get_all_players_def)
  with r show ?thesis by blast
qed

text \<open>
  In \<open>letter_world\<close> the page of the letter a goes through and the page of the letter b
  has the row without a name: the run raises IndexError.
\<close>

theorem get_all_players_empty_name_raises_witness:
  "ascii_lowercase = ''a'' @ CHR ''b'' # ''cdefghijklmnopqrstuvwxyz''
   \<and> letters_loop letter_world ''a'' [] []
       = Finished [''Player'', ''From'']
           [[PyStr ''Bo B'', PyStr ''1991'', PyStr ''/p/b.html'', PyInt 0, PyBool False]]
   \<and> http_get letter_world (url_of CHR ''b'') = Some (url_of CHR ''b'')
   \<and> find_all ''tr'' (html_parser letter_world (url_of CHR ''b'')) = header_row # [plain_row, nameless_row]
   \<and> nameless_row \<in> set [plain_row, nameless_row]
   \<and> find_all ''th'' nameless_row = [nameless_cell]
   \<and> get_text nameless_cell = []
   \<and> scrape_row nameless_row = Inl IndexError
   \<and> get_all_players letter_world True = Inl IndexError"
proof -
  have h1: "ascii_lowercase = ''a'' @ CHR ''b'' # ''cdefghijklmnopqrstuvwxyz''"
    by code_simp
  have h2: "letters_loop letter_world ''a'' [] []
       = Finished [''Player'', ''From'']
           [[PyStr ''Bo B'', PyStr ''1991'', PyStr ''/p/b.html'', PyInt 0, PyBool False]]"
    by code_simp
  have h3: "http_get letter_world (url_of CHR ''b'') = Some (url_of CHR ''b'')"
    by (simp add: letter_world_def)
  have h4: "find_all ''tr'' (html_parser letter_world (url_of CHR ''b'')) = header_row # [plain_row, nameless_row]"
    by code_simp
  have h5: "nameless_row \<in> set [plain_row, nameless_row]"
    by simp
  have h6: "find_all ''th'' nameless_row = [nameless_cell]"
    by code_simp
  have h7: "get_text nameless_cell = []"
    by code_simp
  have a: "length (find_all ''a'' nameless_cell) = 0"
    by code_simp
  have k: "get_all_players letter_world True \<noteq> Inl KeyError"
    by code_simp
  from get_all_players_empty_name_raises [OF h1 h2 h3 h4 h5 h6 h7, of True] a k
  have "scrape_row nameless_row = Inl IndexError \<and> get_all_players letter_world True = Inl IndexError"
    by simp
  with h1 h2 h3 h4 h5 h6 h7 show ?thesis
    by blast
qed

text \<open>
  C10. Let \<open>get_table\<close> return a table for a header section in which two header cells,
  at the places \<open>i < j\<close>, have the same text. Then the table has fewer columns than
  there are header cells, its keys are distinct, exactly one column stands under that
  text, and when \<open>j\<close> is the last header cell with that text the column holds the \<open>td\<close>
  cells of \<open>j\<close>'s \<open>data-stat\<close> key: the values of the earlier cell are overwritten.
\<close>

theorem get_table_twin_headers:
  assumes div: "locate_div parser soup div_id = Inr (Some table_div)"
      and thead: "find_name ''thead'' table_div = Some thead"
      and tbody: "find_name ''tbody'' table_div = Some tbody"
      and headers: "find_all ''th'' thead = headers"
      and rows: "find_all ''tr'' tbody = rows"
      and result: "get_table parser soup div_id = Inr (Some tbl)"
      and twins: "i < j" "j < length headers" "get_text (headers ! i) = get_text (headers ! j)"
  shows "length tbl < length headers
       \<and> distinct (map fst tbl)
       \<and> length (filter (\<lambda>kv. fst kv = get_text (headers ! j)) tbl) = 1
       \<and> ((\<forall>j'. j < j' \<and> j' < length headers \<longrightarrow> get_text (headers ! j') \<noteq> get_text (headers ! j))
            \<longrightarrow> (\<exists>col. map_of tbl (get_text (headers ! j)) = Some col
                    \<and> map (cell_text ''td'' (headers ! j)) rows = map Some col))"
proof -
  from get_table_SomeD [OF div thead tbody headers rows result]
  obtain cols where len: "length cols = length headers"
    and cells: "\<And>j. j < length headers \<Longrightarrow>
           map (cell_text (if j = 0 then ''th'' else ''td'') (headers ! j)) rows = map Some (cols ! j)"
    and tbl: "tbl = fold (case_prod AList.update) (zip (map get_text headers) cols) []"
    by blast
  let ?texts = "map get_text headers"
  let ?kvs = "zip ?texts cols"
  have fst_kvs: "map fst ?kvs = ?texts"
    using len by simp
  then have keys: "map fst tbl = rev (remdups (rev ?texts))"
    using fold_update_keys [of "[]" ?kvs] by (simp add: tbl)
  have "?texts ! i = ?texts ! j" "i < length ?texts" "j < length ?texts" "i \<noteq> j"
    using twins by simp_all
  then have "\<not> distinct ?texts"
    by (metis nth_eq_iff_index_eq)
  then have "\<not> distinct (rev ?texts)"
    by simp
  from remdups_shorter [OF this] have "length (map fst tbl) < length headers"
    by (simp add: keys)
  then have short: "length tbl < length headers"
    by simp
  have dist: "distinct (map fst tbl)"
    by (simp add: keys)
  have "get_text (headers ! j) \<in> set (map fst tbl)"
    unfolding keys using twins(2) by simp
  then have "get_text (headers ! j) \<in> fst ` set tbl"
    by simp
  from one_entry [OF dist this]
  have one: "length (filter (\<lambda>kv. fst kv = get_text (headers ! j)) tbl) = 1" .
  have last: "\<exists>col. map_of tbl (get_text (headers ! j)) = Some col
                    \<and> map (cell_text ''td'' (headers ! j)) rows = map Some col"
    if later: "\<forall>j'. j < j' \<and> j' < length headers \<longrightarrow> get_text (headers ! j') \<noteq> get_text (headers ! j)"
  proof -
    have jk: "j < length ?kvs" using twins(2) len by simp
    have "\<forall>j'. j < j' \<and> j' < length ?kvs \<longrightarrow> fst (?kvs ! j') \<noteq> fst (?kvs ! j)"
      using later len twins(2) by simp
    from fold_update_last [OF jk this, of "[]"]
    have "map_of tbl (get_text (headers ! j)) = Some (cols ! j)"
      using twins(2) len by (simp add: tbl)
    moreover have "j \<noteq> 0"
      using twins(1) by simp
    then have "map (cell_text ''td'' (headers ! j)) rows = map Some (cols ! j)"
      using cells [OF twins(2)] by (simp only: if_False)
    ultimately show ?thesis by blast
  qed
  show ?thesis
  proof (intro conjI impI)
    show "length tbl < length headers" by (rule short)
    show "distinct (map fst tbl)" by (rule dist)
    show "length (filter (\<lambda>kv. fst kv = get_text (headers ! j)) tbl) = 1" by (rule one)
  next
    assume "\<forall>j'. j < j' \<and> j' < length headers \<longrightarrow> get_text (headers ! j') \<noteq> get_text (headers ! j)"
    then show "\<exists>col. map_of tbl (get_text (headers ! j)) = Some col
                    \<and> map (cell_text ''td'' (headers ! j)) rows = map Some col"
      by (rule last)
  qed
qed

text \<open>
  On \<open>twin_page\<close> the second and third header cell both read \<open>G\<close>: the table has two
  columns for three header cells, and the column \<open>G\<close> holds the values of the third
  cell's key \<open>pts\<close>.
\<close>

theorem get_table_twin_headers_witness:
  "locate_div hidden_parser twin_page ''t'' = Inr (Some twin_div)
   \<and> find_name ''thead'' twin_div = Some twin_thead
   \<and> find_name ''tbody'' twin_div = Some season_tbody
   \<and> find_all ''th'' twin_thead = twin_headers
   \<and> find_all ''tr'' season_tbody = reversed_rows
   \<and> get_table hidden_parser twin_page ''t'' = Inr (Some twin_table)
   \<and> (1::nat) < 2 \<and> 2 < length twin_headers
   \<and> get_text (twin_headers ! 1) = get_text (twin_headers ! 2)
   \<and> length twin_table < length twin_headers
   \<and> distinct (map fst twin_table)
   \<and> length (filter (\<lambda>kv. fst kv = get_text (twin_headers ! 2)) twin_table) = 1
   \<and> (\<exists>col. map_of twin_table (get_text (twin_headers ! 2)) = Some col
          \<and> map (cell_text ''td'' (twin_headers ! 2)) reversed_rows = map Some col)
   \<and> map_of twin_table ''G'' = Some [''10'', ''20'']
   \<and> get_attr (twin_headers ! 2) ''data-stat'' = Some ''pts''"
proof -
  have h1: "locate_div hidden_parser twin_page ''t'' = Inr (Some twin_div)"
    by code_simp
  have h2: "find_name ''thead'' twin_div = Some twin_thead"
    by code_simp
  have h3: "find_name ''tbody'' twin_div = Some season_tbody"
    by code_simp
  have h4: "find_all ''th'' twin_thead = twin_headers"
    by code_simp
  have h5: "find_all ''tr'' season_tbody = reversed_rows"
    by code_simp
  have h6: "get_table hidden_parser twin_page ''t'' = Inr (Some twin_table)"
    by code_simp
  have h7: "(1::nat) < 2"
    by simp
  have len: "length twin_headers = 3"
    by code_simp
  have h8: "2 < length twin_headers"
    by (simp add: len)
  have h9: "get_text (twin_headers ! 1) = get_text (twin_headers ! 2)"
    by code_simp
  have later: "\<forall>j'. 2 < j' \<and> j' < length twin_headers
                 \<longrightarrow> get_text (twin_headers ! j') \<noteq> get_text (twin_headers ! 2)"
    by (auto simp: len)
  note t = get_table_twin_headers [OF h1 h2 h3 h4 h5 h6 h7 h8 h9]
  note c1 = conjunct1 [OF t]
  note c2 = conjunct1 [OF conjunct2 [OF t]]
  note c3 = conjunct1 [OF conjunct2 [OF conjunct2 [OF t]]]
  note c4 = mp [OF conjunct2 [OF conjunct2 [OF conjunct2 [OF t]]] later]
  have g: "map_of twin_table ''G'' = Some [''10'', ''20'']"
    by code_simp
  have k: "get_attr (twin_headers ! 2) ''data-stat'' = Some ''pts''"
    by code_simp
  show ?thesis
    by (intro conjI) (rule h1 h2 h3 h4 h5 h6 h7 h8 h9 c1 c2 c3 c4 g k)+
qed

end
